theory Spec2Isabelle
  imports Complex_Main "HOL-Library.Word"
begin

section \<open>The Z-Wave metrics exporter (\<open>src/exporter.js\<close>)\<close>

text \<open>
  The exporter reacts to the driver's \<open>value updated\<close> events: it coerces the payload to a
  number and a unit, derives a metric identifier, creates the gauge on first sight, integrates
  the readings of one particular identifier into an energy counter and sets the gauge. A
  timer watches the resident memory. Everything below follows the source line by line; the
  line numbers are those of \<open>src/exporter.js\<close>.
\<close>

subsection \<open>JavaScript values\<close>

text \<open>
  A JavaScript string is a sequence of UTF-16 code units. \<open>js\<close> writes an ASCII literal
  as code units.
\<close>

type_synonym jsstring = "16 word list"

definition js :: "string \<Rightarrow> jsstring" where
  "js s = map of_char s"

text \<open>
  Numbers are modelled by the reals together with \<open>NaN\<close>: the rounding of IEEE doubles and
  the two infinities are left out. \<open>NaN\<close> is kept because \<open>typeof NaN\<close> is \<open>'number'\<close>
  and because \<open>undefined * x\<close> is \<open>NaN\<close>.
\<close>

datatype jsnum = Fin real | NaN

fun js_mul :: "jsnum \<Rightarrow> jsnum \<Rightarrow> jsnum" where
  "js_mul (Fin a) (Fin b) = Fin (a * b)"
| "js_mul _ _ = NaN"

fun js_add :: "jsnum \<Rightarrow> jsnum \<Rightarrow> jsnum" where
  "js_add (Fin a) (Fin b) = Fin (a + b)"
| "js_add _ _ = NaN"

text \<open>The values \<open>metricValue\<close> can hold: a number, or \<open>undefined\<close>.\<close>

datatype jsval = JUndefined | JNum jsnum

fun to_number :: "jsval \<Rightarrow> jsnum" where
  "to_number JUndefined = NaN"
| "to_number (JNum n) = n"

text \<open>
  The payload \<open>value.newValue\<close> of an event. A composite object carries an optional
  \<open>value\<close> (a number when present) and an optional \<open>unit\<close> (a string when present); a
  string payload, \<open>null\<close> and \<open>undefined\<close> are the other shapes the driver can deliver.
\<close>

datatype payload =
    PBool bool
  | PNum jsnum
  | PObj jsval "jsstring option"
  | PStr jsstring
  | PNull
  | PUndefined

text \<open>
  How the handler can leave by an exception: a \<open>TypeError\<close> of its own statements, or the
  exception of the library call that did not return.
\<close>

datatype error = TypeError | GaugeRejected | IncRejected | SetRejected

text \<open>
  What the host provides and the source only calls: \<open>String.prototype.toLowerCase\<close>, and
  the text that string concatenation yields for a member that \<open>unit_mapping\<close> inherits
  from \<open>Object.prototype\<close> (\<open>None\<close> for every key that names no such member).

  The metrics library is such a collaborator too, and each of its three calls either
  returns or throws: \<open>gauge_accepts name help\<close> says that
  \<open>new prometheus.Gauge({name, help, labelNames})\<close> returns (and has then registered the
  gauge), \<open>inc_accepts d\<close> that \<open>consumed_counter.inc(labels, d)\<close> returns and
  \<open>set_accepts v\<close> that \<open>gauge.set(labels, v)\<close> returns. The handler catches nothing, so
  a call that throws ends it.

  The theorems hold for every such host, under the hypotheses they name.
\<close>

record runtime =
  toLowerCase :: "jsstring \<Rightarrow> jsstring"
  proto_member :: "jsstring \<Rightarrow> jsstring option"
  gauge_accepts :: "jsstring \<Rightarrow> jsstring option \<Rightarrow> bool"
  inc_accepts :: "jsnum \<Rightarrow> bool"
  set_accepts :: "jsval \<Rightarrow> bool"

text \<open>
  One concrete host, for evaluation: it agrees with JavaScript on strings of ASCII code
  units and on keys that are not members of \<open>Object.prototype\<close>.
\<close>

definition ascii_lower :: "jsstring \<Rightarrow> jsstring" where
  "ascii_lower s = map (\<lambda>c. if 0x41 \<le> c \<and> c \<le> 0x5A then c + 0x20 else c) s"

fun truthy :: "jsstring option \<Rightarrow> bool" where
  "truthy None = False"
| "truthy (Some s) = (s \<noteq> [])"

text \<open>
  The library \<open>prom-client\<close> in that host. It is not part of the repository; these are
  its checks as far as the handler meets them. The constructor wants a help text, a name
  of the form \<open>[a-zA-Z_:][a-zA-Z0-9_:]*\<close> and a name that is not registered yet (the
  handler asks only for names that are not in \<open>metrics\<close>, which leaves the name of the
  counter of line 52). \<open>inc\<close> refuses to decrease the counter. \<open>set\<close> wants a value
  whose \<open>typeof\<close> is \<open>'number'\<close>. The labels the handler passes are always the three
  declared ones.
\<close>

definition name_start :: "16 word \<Rightarrow> bool" where
  "name_start c =
     ((0x41 \<le> c \<and> c \<le> 0x5A) \<or> (0x61 \<le> c \<and> c \<le> 0x7A) \<or> c = 0x5F \<or> c = 0x3A)"

definition name_char :: "16 word \<Rightarrow> bool" where
  "name_char c = (name_start c \<or> (0x30 \<le> c \<and> c \<le> 0x39))"

fun valid_metric_name :: "jsstring \<Rightarrow> bool" where
  "valid_metric_name [] = False"
| "valid_metric_name (c # cs) = (name_start c \<and> list_all name_char cs)"

definition prom_gauge_accepts :: "jsstring \<Rightarrow> jsstring option \<Rightarrow> bool" where
  "prom_gauge_accepts n help =
     (truthy help \<and> valid_metric_name n \<and> n \<noteq> js ''zwave_estimated_power_joules'')"

fun prom_inc_accepts :: "jsnum \<Rightarrow> bool" where
  "prom_inc_accepts (Fin d) = (0 \<le> d)"
| "prom_inc_accepts NaN = True"

fun prom_set_accepts :: "jsval \<Rightarrow> bool" where
  "prom_set_accepts (JNum n) = True"
| "prom_set_accepts JUndefined = False"

definition ascii_rt :: runtime where
  "ascii_rt =
     \<lparr>toLowerCase = ascii_lower, proto_member = (\<lambda>_. None),
      gauge_accepts = prom_gauge_accepts, inc_accepts = prom_inc_accepts,
      set_accepts = prom_set_accepts\<rparr>"

subsection \<open>Events and state\<close>

text \<open>
  The fields of \<open>node\<close>, \<open>value\<close> and \<open>node.getValueMetadata(value)\<close> that the handler
  reads. Optional strings are \<open>None\<close> when \<open>undefined\<close>; the node's id and the endpoint
  are numbers. The calls to \<open>log\<close> are left out: they write a line and change nothing.
\<close>

record event =
  node_id :: nat
  node_name :: "jsstring option"
  endpoint :: nat
  propertyName :: "jsstring option"
  propertyKeyName :: "jsstring option"
  newValue :: payload
  md_unit :: "jsstring option"
  md_label :: "jsstring option"

text \<open>The label object \<open>{node, endpoint, name}\<close> of line 111.\<close>

record labels =
  lbl_node :: nat
  lbl_endpoint :: nat
  lbl_name :: "jsstring option"

text \<open>An entry \<open>{last, joules}\<close> of \<open>consumption\<close> (line 124).\<close>

record rec =
  rec_last :: real
  rec_joules :: jsnum

text \<open>
  The two process-wide objects: \<open>metrics\<close> (line 15) maps an identifier to the help text its
  gauge was built with, \<open>consumption\<close> (line 56) maps a key to its entry. The key
  \<open>`${node.id}:${value.endpoint}`\<close> is modelled by the pair of the two numbers.
\<close>

record state =
  metrics :: "jsstring \<rightharpoonup> jsstring option"
  consumption :: "(nat \<times> nat) \<rightharpoonup> rec"

definition init_state :: state where
  "init_state = \<lparr>metrics = Map.empty, consumption = Map.empty\<rparr>"

text \<open>
  The calls to the metrics library, in the order the handler makes them:
  \<open>new prometheus.Gauge\<close>, \<open>consumed_counter.inc\<close> and \<open>gauge.set\<close>, each with its
  arguments. A call that throws is the last one of its handler.
\<close>

datatype effect =
    NewGauge jsstring "jsstring option"
  | CounterInc labels jsnum
  | GaugeSet jsstring labels jsval

subsection \<open>Raw name (line 81)\<close>

text \<open>\<open>truthy\<close>, above, is the truth value of an optional string.\<close>

definition value_name :: "event \<Rightarrow> jsstring option" where
  "value_name ev =
     (if truthy (propertyKeyName ev) then propertyKeyName ev else propertyName ev)"

subsection \<open>Value coercion (lines 85 to 93)\<close>

text \<open>
  Reading \<open>.unit\<close> of \<open>null\<close> or \<open>undefined\<close> throws a \<open>TypeError\<close>; on a string both
  \<open>.unit\<close> and \<open>.value\<close> are \<open>undefined\<close>.
\<close>

fun nullish_or :: "'a option \<Rightarrow> 'a option \<Rightarrow> 'a option" where
  "nullish_or (Some a) _ = Some a"
| "nullish_or None b = b"

fun coerce :: "payload \<Rightarrow> jsstring option \<Rightarrow> error + (jsval \<times> jsstring option)" where
  "coerce (PBool b) mu = Inr (JNum (Fin (if b then 1 else 0)), None)"
| "coerce (PNum n) mu = Inr (JNum n, mu)"
| "coerce (PObj v u) mu = Inr (v, nullish_or u mu)"
| "coerce (PStr s) mu = Inr (JUndefined, nullish_or None mu)"
| "coerce PNull mu = Inl TypeError"
| "coerce PUndefined mu = Inl TypeError"

subsection \<open>Unit suffix (lines 16 to 24 and 94 to 96)\<close>

definition unit_mapping :: "(jsstring \<times> jsstring) list" where
  "unit_mapping =
     [(js ''A'', js ''_amperes''),
      ([0xB0, 0x43], js ''_celsius''),
      (js ''kWh'', js ''_kwh''),
      (js ''%'', js ''_percent''),
      (js ''ppm'', js ''_ppm''),
      (js ''V'', js ''_volts''),
      (js ''W'', js ''_watts'')]"

text \<open>
  \<open>unit_mapping[unit]\<close>: an own property, else a member inherited from
  \<open>Object.prototype\<close>, else \<open>undefined\<close>.
\<close>

definition unit_lookup :: "runtime \<Rightarrow> jsstring \<Rightarrow> jsstring option" where
  "unit_lookup rt u =
     (case map_of unit_mapping u of Some s \<Rightarrow> Some s | None \<Rightarrow> proto_member rt u)"

text \<open>\<open>if (unit)\<close> holds for a string that is not empty.\<close>

definition normalize :: "runtime \<Rightarrow> jsstring option \<Rightarrow> jsstring" where
  "normalize rt unit =
     (case unit of
        None \<Rightarrow> []
      | Some u \<Rightarrow>
          (if u \<noteq> [] then (case unit_lookup rt u of Some s \<Rightarrow> s | None \<Rightarrow> u) else []))"

subsection \<open>Metric identifier (lines 97 to 102)\<close>

text \<open>The three \<open>replace\<close> calls, each with the \<open>g\<close> flag, on single code units.\<close>

definition replace_unit :: "16 word \<Rightarrow> 16 word \<Rightarrow> jsstring \<Rightarrow> jsstring" where
  "replace_unit x y s = map (\<lambda>c. if c = x then y else c) s"

definition strip_parens :: "jsstring \<Rightarrow> jsstring" where
  "strip_parens s = filter (\<lambda>c. c \<noteq> 0x28 \<and> c \<noteq> 0x29) s"

definition sanitize :: "runtime \<Rightarrow> jsstring \<Rightarrow> jsstring" where
  "sanitize rt raw =
     strip_parens (replace_unit 0x2082 0x32 (replace_unit 0x20 0x5F (toLowerCase rt raw)))"

definition deriveName :: "runtime \<Rightarrow> jsstring \<Rightarrow> jsstring \<Rightarrow> jsstring" where
  "deriveName rt raw suffix = js ''zwave_'' @ sanitize rt raw @ suffix"

text \<open>\<open>value_name.toLowerCase()\<close> throws a \<open>TypeError\<close> when \<open>value_name\<close> is \<open>undefined\<close>.\<close>

fun metric_name :: "runtime \<Rightarrow> jsstring option \<Rightarrow> jsstring \<Rightarrow> error + jsstring" where
  "metric_name rt None suffix = Inl TypeError"
| "metric_name rt (Some raw) suffix = Inr (deriveName rt raw suffix)"

subsection \<open>Registry cache (lines 103 to 110)\<close>

text \<open>
  Every identifier starts with \<open>zwave_\<close>, which no member of \<open>Object.prototype\<close> does, so
  \<open>metric_name in metrics\<close> is membership in the object's own keys. The assignment to
  \<open>metrics[metric_name]\<close> takes place only when the constructor has returned: when it
  throws, \<open>metrics\<close> is as before. The result is the new \<open>metrics\<close>, the calls made and
  the exception, if any.
\<close>

definition getOrCreate ::
  "runtime \<Rightarrow> (jsstring \<rightharpoonup> jsstring option) \<Rightarrow> jsstring \<Rightarrow> jsstring option \<Rightarrow>
     (jsstring \<rightharpoonup> jsstring option) \<times> effect list \<times> error option" where
  "getOrCreate rt ms n help =
     (if ms n = None
      then (if gauge_accepts rt n help
            then (ms(n \<mapsto> help), [NewGauge n help], None)
            else (ms, [NewGauge n help], Some GaugeRejected))
      else (ms, [], None))"

subsection \<open>Energy accrual (lines 112 to 126)\<close>

text \<open>
  The entry is written (lines 120 and 121) before the counter is called (line 122), so it
  keeps its new values when \<open>inc\<close> throws.
\<close>

definition accrue ::
  "runtime \<Rightarrow> ((nat \<times> nat) \<rightharpoonup> rec) \<Rightarrow> nat \<times> nat \<Rightarrow> jsval \<Rightarrow> labels \<Rightarrow> real \<Rightarrow>
     ((nat \<times> nat) \<rightharpoonup> rec) \<times> effect list \<times> error option" where
  "accrue rt cons key metricValue lbls time =
     (case cons key of
        Some r \<Rightarrow>
          (let elapsed = (time - rec_last r) / 1000;
               energy = js_mul (to_number metricValue) (Fin elapsed)
           in (cons(key \<mapsto> \<lparr>rec_last = time, rec_joules = js_add (rec_joules r) energy\<rparr>),
               [CounterInc lbls energy],
               if inc_accepts rt energy then None else Some IncRejected))
      | None \<Rightarrow> (cons(key \<mapsto> \<lparr>rec_last = time, rec_joules = Fin 0\<rparr>), [], None))"

subsection \<open>The handler (lines 70 to 128)\<close>

text \<open>
  Lines 81 to 102 read no state: they yield \<open>metricValue\<close> and \<open>metric_name\<close>, or
  throw. The coercion comes first, so its exception wins.
\<close>

definition derive :: "runtime \<Rightarrow> event \<Rightarrow> error + (jsval \<times> jsstring)" where
  "derive rt ev =
     (case coerce (newValue ev) (md_unit ev) of
        Inl e \<Rightarrow> Inl e
      | Inr (metricValue, unit) \<Rightarrow>
          (case metric_name rt (value_name ev) (normalize rt unit) of
             Inl e \<Rightarrow> Inl e
           | Inr n \<Rightarrow> Inr (metricValue, n)))"

definition labels_of :: "event \<Rightarrow> labels" where
  "labels_of ev =
     \<lparr>lbl_node = node_id ev, lbl_endpoint = endpoint ev, lbl_name = node_name ev\<rparr>"

text \<open>
  \<open>time\<close> is what \<open>performance.now()\<close> returns (milliseconds) when the handler reads it.
  The result is the state the handler leaves, the library calls it has made, and the
  exception it leaves by (\<open>None\<close> when it returns). A \<open>TypeError\<close> of lines 91 or 98
  comes before anything is written; an exception of the constructor comes before the
  integrator and leaves the state as it was; an exception of \<open>inc\<close> comes after the entry
  of \<open>consumption\<close> is written and before \<open>set\<close>; an exception of \<open>set\<close> comes last.
\<close>

definition value_updated ::
  "runtime \<Rightarrow> state \<Rightarrow> event \<Rightarrow> real \<Rightarrow> state \<times> effect list \<times> error option" where
  "value_updated rt st ev time =
     (case derive rt ev of
        Inl e \<Rightarrow> (st, [], Some e)
      | Inr (metricValue, n) \<Rightarrow>
          (let (ms, e1, x1) = getOrCreate rt (metrics st) n (md_label ev) in
           if x1 \<noteq> None then (\<lparr>metrics = ms, consumption = consumption st\<rparr>, e1, x1)
           else
             (let lbls = labels_of ev;
                  (cs, e2, x2) =
                    (if n = js ''zwave_electric_w_consumed_watts''
                     then accrue rt (consumption st) (node_id ev, endpoint ev) metricValue lbls time
                     else (consumption st, [], None))
              in if x2 \<noteq> None then (\<lparr>metrics = ms, consumption = cs\<rparr>, e1 @ e2, x2)
                 else (\<lparr>metrics = ms, consumption = cs\<rparr>,
                       e1 @ e2 @ [GaugeSet n lbls metricValue],
                       if set_accepts rt metricValue then None else Some SetRejected))))"

text \<open>
  A sequence of events with their clock readings: the state after the last one and all
  calls made. What an exception does to the process is decided by the emitter's caller,
  which is not part of the source; \<open>run\<close> goes on with the next event, so the states of
  a process that stops at an exception are those of \<open>run\<close> on a shorter list.
\<close>

fun run :: "runtime \<Rightarrow> state \<Rightarrow> (event \<times> real) list \<Rightarrow> state \<times> effect list" where
  "run rt st [] = (st, [])"
| "run rt st ((ev, time) # rest) =
     (let (st', es, x) = value_updated rt st ev time;
          (st'', es') = run rt st' rest
      in (st'', es @ es'))"

subsection \<open>Watchdog (lines 12 and 141 to 150)\<close>

text \<open>
  \<open>parsed\<close> is the result of \<open>parseInt(process.env.MAX_RSS, 10)\<close>, \<open>None\<close> for \<open>NaN\<close>
  (among others when the variable is unset); \<open>|| 0\<close> replaces \<open>NaN\<close> and \<open>0\<close> by \<open>0\<close>.
\<close>

definition MAX_RSS :: "int option \<Rightarrow> int" where
  "MAX_RSS parsed = (case parsed of None \<Rightarrow> 0 | Some n \<Rightarrow> if n \<noteq> 0 then n else 0)"

datatype process = Running | Exited nat

text \<open>The timer's callback on the readings of \<open>rss\<close>, one per tick, until the first exit.\<close>

fun ticks :: "int \<Rightarrow> int list \<Rightarrow> process" where
  "ticks m [] = Running"
| "ticks m (rss # rest) = (if rss > m then Exited 1 else ticks m rest)"

definition watchdog :: "int \<Rightarrow> int list \<Rightarrow> process" where
  "watchdog m obs = (if m > 0 then ticks m obs else Running)"

subsection \<open>Reading a trace of calls\<close>

fun new_gauges :: "effect list \<Rightarrow> (jsstring \<times> jsstring option) list" where
  "new_gauges [] = []"
| "new_gauges (NewGauge n h # es) = (n, h) # new_gauges es"
| "new_gauges (_ # es) = new_gauges es"

fun counter_incs :: "effect list \<Rightarrow> (labels \<times> jsnum) list" where
  "counter_incs [] = []"
| "counter_incs (CounterInc l d # es) = (l, d) # counter_incs es"
| "counter_incs (_ # es) = counter_incs es"

fun gauge_sets :: "effect list \<Rightarrow> (jsstring \<times> labels \<times> jsval) list" where
  "gauge_sets [] = []"
| "gauge_sets (GaugeSet n l v # es) = (n, l, v) # gauge_sets es"
| "gauge_sets (_ # es) = gauge_sets es"

text \<open>The gauges that exist: the constructor calls that returned.\<close>

definition registered :: "runtime \<Rightarrow> effect list \<Rightarrow> (jsstring \<times> jsstring option) list" where
  "registered rt es = filter (\<lambda>(n, h). gauge_accepts rt n h) (new_gauges es)"

subsection \<open>Sample events\<close>

text \<open>
  The specification's scenario: node 3, endpoint 0, property \<open>Electric W Consumed\<close> with
  unit \<open>W\<close> and a numeric reading.
\<close>

definition sample :: "real \<Rightarrow> event" where
  "sample p =
     \<lparr>node_id = 3, node_name = None, endpoint = 0,
      propertyName = Some (js ''Electric W Consumed''), propertyKeyName = None,
      newValue = PNum (Fin p), md_unit = Some (js ''W''), md_label = Some (js ''Power'')\<rparr>"

definition sample_labels :: labels where
  "sample_labels = \<lparr>lbl_node = 3, lbl_endpoint = 0, lbl_name = None\<rparr>"

text \<open>A string payload, as the driver delivers for a textual property.\<close>

definition text_event :: event where
  "text_event =
     \<lparr>node_id = 3, node_name = None, endpoint = 0,
      propertyName = Some (js ''Location''), propertyKeyName = None,
      newValue = PStr (js ''hall''), md_unit = None, md_label = Some (js ''Location'')\<rparr>"

text \<open>A reading in a unit that the table does not have.\<close>

definition uv_event :: event where
  "uv_event =
     \<lparr>node_id = 3, node_name = None, endpoint = 0,
      propertyName = Some (js ''Ultraviolet''), propertyKeyName = None,
      newValue = PNum (Fin 4), md_unit = Some (js ''UV index''),
      md_label = Some (js ''Ultraviolet'')\<rparr>"

subsection \<open>Predicates of the statements\<close>

text \<open>Order on numbers; nothing is below or above \<open>NaN\<close>.\<close>

fun jle :: "jsnum \<Rightarrow> jsnum \<Rightarrow> bool" where
  "jle (Fin a) (Fin b) = (a \<le> b)"
| "jle _ _ = False"

text \<open>An event that, when it is a power reading, carries a number that is not negative.\<close>

fun nonneg :: "jsval \<Rightarrow> bool" where
  "nonneg (JNum (Fin p)) = (0 \<le> p)"
| "nonneg _ = False"

definition nonneg_power :: "runtime \<Rightarrow> event \<Rightarrow> bool" where
  "nonneg_power rt ev =
     (case derive rt ev of
        Inl e \<Rightarrow> True
      | Inr (v, n) \<Rightarrow> n \<noteq> js ''zwave_electric_w_consumed_watts'' \<or> nonneg v)"

text \<open>Space, subscript two and the two parentheses.\<close>

definition forbidden :: "16 word set" where
  "forbidden = {0x20, 0x2082, 0x28, 0x29}"

section \<open>Properties\<close>

subsection \<open>Auxiliary facts\<close>

lemmas host_defs = ascii_rt_def ascii_lower_def js_def

lemmas name_defs = deriveName_def sanitize_def strip_parens_def replace_unit_def
  normalize_def unit_lookup_def unit_mapping_def

lemma derive_sample:
  "derive ascii_rt (sample p) = Inr (JNum (Fin p), js ''zwave_electric_w_consumed_watts'')"
  by (simp add: derive_def sample_def value_name_def name_defs host_defs)

lemma labels_of_sample: "labels_of (sample p) = sample_labels"
  by (simp add: labels_of_def sample_def sample_labels_def)

lemma sample_fields:
  "node_id (sample p) = 3" "endpoint (sample p) = 0" "md_label (sample p) = Some (js ''Power'')"
  by (simp_all add: sample_def)

lemma sample_gauge_accepted:
  "gauge_accepts ascii_rt (js ''zwave_electric_w_consumed_watts'') (Some (js ''Power''))"
  by (simp add: ascii_rt_def prom_gauge_accepts_def js_def name_start_def name_char_def)

lemma ascii_rt_library [simp]:
  "inc_accepts ascii_rt = prom_inc_accepts" "set_accepts ascii_rt = prom_set_accepts"
  by (simp_all add: ascii_rt_def)

lemma value_updated_Inl: "derive rt ev = Inl e \<Longrightarrow> value_updated rt st ev t = (st, [], Some e)"
  by (simp add: value_updated_def)

lemma value_updated_rejected:
  "derive rt ev = Inr (v, n) \<Longrightarrow> metrics st n = None \<Longrightarrow> \<not> gauge_accepts rt n (md_label ev) \<Longrightarrow>
   value_updated rt st ev t = (st, [NewGauge n (md_label ev)], Some GaugeRejected)"
  by (simp add: value_updated_def getOrCreate_def)

lemma value_updated_reached:
  fixes rt st ev t v n
  defines "g \<equiv> getOrCreate rt (metrics st) n (md_label ev)"
    and "a \<equiv> (if n = js ''zwave_electric_w_consumed_watts''
              then accrue rt (consumption st) (node_id ev, endpoint ev) v (labels_of ev) t
              else (consumption st, [], None))"
  assumes "derive rt ev = Inr (v, n)"
    and "metrics st n \<noteq> None \<or> gauge_accepts rt n (md_label ev)"
  shows "value_updated rt st ev t =
     (\<lparr>metrics = fst g, consumption = fst a\<rparr>,
      fst (snd g) @ fst (snd a) @
        (if snd (snd a) = None then [GaugeSet n (labels_of ev) v] else []),
      (if snd (snd a) \<noteq> None then snd (snd a)
       else if set_accepts rt v then None else Some SetRejected))"
  using assms(3,4) unfolding g_def a_def
  by (auto simp: value_updated_def getOrCreate_def Let_def split: prod.splits)

lemma counter_incs_append [simp]: "counter_incs (xs @ ys) = counter_incs xs @ counter_incs ys"
  by (induction xs rule: counter_incs.induct) simp_all

lemma new_gauges_append [simp]: "new_gauges (xs @ ys) = new_gauges xs @ new_gauges ys"
  by (induction xs rule: new_gauges.induct) simp_all

lemma gauge_sets_append [simp]: "gauge_sets (xs @ ys) = gauge_sets xs @ gauge_sets ys"
  by (induction xs rule: gauge_sets.induct) simp_all

lemma getOrCreate_traces [simp]:
  "counter_incs (fst (snd (getOrCreate rt ms n h))) = []"
  "gauge_sets (fst (snd (getOrCreate rt ms n h))) = []"
  by (simp_all add: getOrCreate_def)

lemma accrue_traces [simp]:
  "new_gauges (fst (snd (accrue rt cs k v l t))) = []"
  "gauge_sets (fst (snd (accrue rt cs k v l t))) = []"
  by (simp_all add: accrue_def Let_def split: option.splits)

lemma getOrCreate_available:
  "ms n \<noteq> None \<or> gauge_accepts rt n h \<Longrightarrow> fst (getOrCreate rt ms n h) n \<noteq> None"
  by (auto simp: getOrCreate_def)

subsection \<open>Energy accrual over two samples\<close>

text \<open>
  C1, as the code has it. Take a key without an entry and a power reading that reaches the
  integrator (its gauge exists, or the constructor returns). That first reading creates
  the entry \<open>{last: t1, joules: 0}\<close> and makes no call to the counter. The second reading
  calls the counter with the power of that second reading times the seconds elapsed since
  the first, \<open>p2 * ((t2 - t1) / 1000)\<close>, and the entry holds the new total. The power of
  the first reading is not kept anywhere. Both handlers return when the library accepts
  their calls.
\<close>

theorem accrual_two_samples:
  assumes d1: "derive rt e1 = Inr (JNum (Fin p1), js ''zwave_electric_w_consumed_watts'')"
    and d2: "derive rt e2 = Inr (JNum (Fin p2), js ''zwave_electric_w_consumed_watts'')"
    and key: "node_id e2 = node_id e1 \<and> endpoint e2 = endpoint e1"
    and fresh: "consumption st (node_id e1, endpoint e1) = None"
    and gauge: "metrics st (js ''zwave_electric_w_consumed_watts'') \<noteq> None \<or>
                gauge_accepts rt (js ''zwave_electric_w_consumed_watts'') (md_label e1)"
  shows "\<exists>st1 es1 x1 st2 es2 x2.
           value_updated rt st e1 t1 = (st1, es1, x1) \<and>
           counter_incs es1 = [] \<and>
           consumption st1 (node_id e1, endpoint e1) = Some \<lparr>rec_last = t1, rec_joules = Fin 0\<rparr> \<and>
           (set_accepts rt (JNum (Fin p1)) \<longrightarrow> x1 = None) \<and>
           value_updated rt st1 e2 t2 = (st2, es2, x2) \<and>
           counter_incs es2 = [(labels_of e2, Fin (p2 * ((t2 - t1) / 1000)))] \<and>
           consumption st2 (node_id e1, endpoint e1) =
             Some \<lparr>rec_last = t2, rec_joules = Fin (0 + p2 * ((t2 - t1) / 1000))\<rparr> \<and>
           (inc_accepts rt (Fin (p2 * ((t2 - t1) / 1000))) \<and> set_accepts rt (JNum (Fin p2))
              \<longrightarrow> x2 = None)"
proof -
  let ?n = "js ''zwave_electric_w_consumed_watts''"
  let ?k = "(node_id e1, endpoint e1)"
  obtain st1 es1 x1 where s1: "value_updated rt st e1 t1 = (st1, es1, x1)"
    by (cases "value_updated rt st e1 t1") 
  have c1: "consumption st1 ?k = Some \<lparr>rec_last = t1, rec_joules = Fin 0\<rparr>"
    and i1: "counter_incs es1 = []"
    and r1: "set_accepts rt (JNum (Fin p1)) \<longrightarrow> x1 = None"
    and m1: "metrics st1 ?n \<noteq> None"
    using s1 fresh
      getOrCreate_available [of "metrics st" ?n rt "md_label e1", OF gauge]
    unfolding value_updated_reached [OF d1 gauge] by (auto simp: accrue_def)
  then have gauge2: "metrics st1 ?n \<noteq> None \<or> gauge_accepts rt ?n (md_label e2)" by simp
  obtain st2 es2 x2 where s2: "value_updated rt st1 e2 t2 = (st2, es2, x2)"
    by (cases "value_updated rt st1 e2 t2")
  have "counter_incs es2 = [(labels_of e2, Fin (p2 * ((t2 - t1) / 1000)))]"
    and "consumption st2 ?k = Some \<lparr>rec_last = t2, rec_joules = Fin (0 + p2 * ((t2 - t1) / 1000))\<rparr>"
    and "inc_accepts rt (Fin (p2 * ((t2 - t1) / 1000))) \<and> set_accepts rt (JNum (Fin p2))
              \<longrightarrow> x2 = None"
    using s2 c1 key unfolding value_updated_reached [OF d2 gauge2]
    by (auto simp: accrue_def Let_def)
  with s1 c1 i1 r1 s2 show ?thesis by blast
qed

text \<open>The scenario of the specification: 10 W at 0 s, then 20 W at 5 s.\<close>

theorem accrual_two_samples_witness:
  "derive ascii_rt (sample 10) = Inr (JNum (Fin 10), js ''zwave_electric_w_consumed_watts'') \<and>
   derive ascii_rt (sample 20) = Inr (JNum (Fin 20), js ''zwave_electric_w_consumed_watts'') \<and>
   consumption init_state (node_id (sample 10), endpoint (sample 10)) = None \<and>
   gauge_accepts ascii_rt (js ''zwave_electric_w_consumed_watts'') (md_label (sample 10)) \<and>
   (\<exists>st1 es1 st2 es2.
      value_updated ascii_rt init_state (sample 10) 0 = (st1, es1, None) \<and>
      counter_incs es1 = [] \<and>
      value_updated ascii_rt st1 (sample 20) 5000 = (st2, es2, None) \<and>
      counter_incs es2 = [(sample_labels, Fin 100)])"
  using accrual_two_samples [of ascii_rt "sample 10" 10 "sample 20" 20 init_state 0 5000]
    sample_gauge_accepted
  by (simp add: derive_sample sample_fields labels_of_sample init_state_def) blast

text \<open>
  In that scenario the increment at the second sample is 100 J, not the 50 J that the
  first sample's power would give.
\<close>

theorem accrual_previous_power_counterexample:
  "counter_incs (snd (run ascii_rt init_state [(sample 10, 0), (sample 20, 5000)]))
     = [(sample_labels, Fin 100)] \<and> Fin 100 \<noteq> Fin (10 * 5)"
  by (simp add: value_updated_def derive_sample labels_of_sample sample_fields
      sample_gauge_accepted getOrCreate_def accrue_def init_state_def Let_def)

subsection \<open>Cumulative joules\<close>

lemma jle_refl: "x \<noteq> NaN \<Longrightarrow> jle x x"
  by (cases x) simp_all

lemma jle_trans: "jle x y \<Longrightarrow> jle y z \<Longrightarrow> jle x z"
  by (cases x; cases y; cases z) simp_all

text \<open>
  One call of the integrator, for a reading that is not negative and a clock reading that
  is not before any stored one: stored times stay behind the clock, no total becomes
  \<open>NaN\<close>, no total decreases, and the increment is not negative.
\<close>

lemma accrue_step:
  assumes inv: "\<forall>k r. cs k = Some r \<longrightarrow> rec_last r \<le> t \<and> rec_joules r \<noteq> NaN"
    and nn: "nonneg v"
  shows "(\<forall>k r. fst (accrue rt cs key v l t) k = Some r \<longrightarrow> rec_last r \<le> t \<and> rec_joules r \<noteq> NaN) \<and>
         (\<forall>k r. cs k = Some r \<longrightarrow>
            (\<exists>r'. fst (accrue rt cs key v l t) k = Some r' \<and> jle (rec_joules r) (rec_joules r'))) \<and>
         (\<forall>(l', d) \<in> set (counter_incs (fst (snd (accrue rt cs key v l t)))). jle (Fin 0) d)"
proof -
  obtain p where v: "v = JNum (Fin p)" and p: "0 \<le> p"
    using nn by (cases v rule: nonneg.cases) simp_all
  show ?thesis
  proof (cases "cs key")
    case None
    then show ?thesis
      using inv by (auto simp: accrue_def jle_refl)
  next
    case (Some r0)
    with inv have r0: "rec_last r0 \<le> t" "rec_joules r0 \<noteq> NaN" by blast+
    then obtain j where j: "rec_joules r0 = Fin j" by (cases "rec_joules r0") simp_all
    have e: "0 \<le> p * ((t - rec_last r0) / 1000)"
      using p r0(1) by simp
    show ?thesis
      using Some inv v j e by (auto simp: accrue_def Let_def jle_refl)
  qed
qed

lemma value_updated_consumption:
  assumes "value_updated rt st ev t = (st', es, x)"
  shows "(consumption st' = consumption st \<and> counter_incs es = []) \<or>
         (\<exists>v. derive rt ev = Inr (v, js ''zwave_electric_w_consumed_watts'') \<and>
            consumption st'
              = fst (accrue rt (consumption st) (node_id ev, endpoint ev) v (labels_of ev) t) \<and>
            counter_incs es
              = counter_incs (fst (snd (accrue rt (consumption st) (node_id ev, endpoint ev) v
                  (labels_of ev) t))))"
proof (cases "derive rt ev")
  case (Inl e)
  then show ?thesis using assms by (simp add: value_updated_def)
next
  case (Inr res)
  obtain v n where res: "res = (v, n)" by (cases res)
  note d = Inr [unfolded res]
  show ?thesis
  proof (cases "metrics st n \<noteq> None \<or> gauge_accepts rt n (md_label ev)")
    case True
    show ?thesis
      using assms d unfolding value_updated_reached [OF d True] by auto
  next
    case False
    then show ?thesis
      using assms value_updated_rejected [OF d, of st t] by auto
  qed
qed

lemma step_mono:
  assumes inv: "\<forall>k r. consumption st k = Some r \<longrightarrow> rec_last r \<le> t \<and> rec_joules r \<noteq> NaN"
    and np: "nonneg_power rt ev"
    and step: "value_updated rt st ev t = (st', es, x)"
  shows "(\<forall>k r. consumption st' k = Some r \<longrightarrow> rec_last r \<le> t \<and> rec_joules r \<noteq> NaN) \<and>
         (\<forall>k r. consumption st k = Some r \<longrightarrow>
            (\<exists>r'. consumption st' k = Some r' \<and> jle (rec_joules r) (rec_joules r'))) \<and>
         (\<forall>(l, d) \<in> set (counter_incs es). jle (Fin 0) d)"
proof -
  from value_updated_consumption [OF step]
  consider "consumption st' = consumption st" "counter_incs es = []"
    | v where "derive rt ev = Inr (v, js ''zwave_electric_w_consumed_watts'')"
      "consumption st'
         = fst (accrue rt (consumption st) (node_id ev, endpoint ev) v (labels_of ev) t)"
      "counter_incs es
         = counter_incs (fst (snd (accrue rt (consumption st) (node_id ev, endpoint ev) v
             (labels_of ev) t)))"
    by blast
  then show ?thesis
  proof cases
    case 1
    then show ?thesis using inv by (auto simp: jle_refl)
  next
    case 2
    with np have nn: "nonneg v" by (simp add: nonneg_power_def)
    from accrue_step [OF inv nn, of rt "(node_id ev, endpoint ev)" "labels_of ev"] 2(2,3)
    show ?thesis by simp
  qed
qed

lemma run_Cons:
  "value_updated rt st ev t = (st', es, x) \<Longrightarrow>
   run rt st ((ev, t) # evs) = (fst (run rt st' evs), es @ snd (run rt st' evs))"
  by (simp add: case_prod_beta)

lemma run_mono:
  assumes "sorted (map snd evs)"
    and "\<forall>k r. consumption st k = Some r \<longrightarrow>
           (\<forall>t \<in> set (map snd evs). rec_last r \<le> t) \<and> rec_joules r \<noteq> NaN"
    and "\<forall>(ev, t) \<in> set evs. nonneg_power rt ev"
  shows "(\<forall>k r. consumption st k = Some r \<longrightarrow>
            (\<exists>r'. consumption (fst (run rt st evs)) k = Some r' \<and>
                  jle (rec_joules r) (rec_joules r'))) \<and>
         (\<forall>(l, d) \<in> set (counter_incs (snd (run rt st evs))). jle (Fin 0) d)"
  using assms
proof (induction evs arbitrary: st)
  case Nil
  then show ?case by (auto simp: jle_refl)
next
  case (Cons x evs)
  obtain ev t where x: "x = (ev, t)" by (cases x)
  from Cons.prems x have srt: "sorted (map snd evs)" and le: "\<forall>t' \<in> set (map snd evs). t \<le> t'"
    and np: "nonneg_power rt ev" and nps: "\<forall>(ev, t) \<in> set evs. nonneg_power rt ev"
    by auto
  from Cons.prems(2) x
  have inv: "\<forall>k r. consumption st k = Some r \<longrightarrow> rec_last r \<le> t \<and> rec_joules r \<noteq> NaN"
    by auto
  obtain st' es thrown where vu: "value_updated rt st ev t = (st', es, thrown)"
    by (cases "value_updated rt st ev t")
  note step = step_mono [OF inv np vu]
  have inv': "\<forall>k r. consumption st' k = Some r \<longrightarrow>
         (\<forall>t \<in> set (map snd evs). rec_last r \<le> t) \<and> rec_joules r \<noteq> NaN"
    using step le by fastforce
  note ih = Cons.IH [OF srt inv' nps]
  note run = run_Cons [OF vu, of evs]
  have "\<exists>r'. consumption (fst (run rt st' evs)) k = Some r' \<and> jle (rec_joules r) (rec_joules r')"
    if "consumption st k = Some r" for k r
  proof -
    from step that obtain r1 where r1: "consumption st' k = Some r1" "jle (rec_joules r) (rec_joules r1)"
      by blast
    with ih obtain r2 where "consumption (fst (run rt st' evs)) k = Some r2" "jle (rec_joules r1) (rec_joules r2)"
      by blast
    with r1 show ?thesis by (blast intro: jle_trans)
  qed
  moreover have "\<forall>(l, d) \<in> set (counter_incs (es @ snd (run rt st' evs))). jle (Fin 0) d"
    using step ih by auto
  ultimately show ?case
    unfolding x run by simp
qed

lemma run_inv:
  assumes "sorted (map snd (evs1 @ evs2))"
    and "\<forall>k r. consumption st k = Some r \<longrightarrow>
           (\<forall>t \<in> set (map snd (evs1 @ evs2)). rec_last r \<le> t) \<and> rec_joules r \<noteq> NaN"
    and "\<forall>(ev, t) \<in> set evs1. nonneg_power rt ev"
  shows "\<forall>k r. consumption (fst (run rt st evs1)) k = Some r \<longrightarrow>
           (\<forall>t \<in> set (map snd evs2). rec_last r \<le> t) \<and> rec_joules r \<noteq> NaN"
  using assms
proof (induction evs1 arbitrary: st)
  case Nil
  then show ?case by simp
next
  case (Cons x evs1)
  obtain ev t where x: "x = (ev, t)" by (cases x)
  from Cons.prems x have srt: "sorted (map snd (evs1 @ evs2))"
    and le: "\<forall>t' \<in> set (map snd (evs1 @ evs2)). t \<le> t'"
    and np: "nonneg_power rt ev" and nps: "\<forall>(ev, t) \<in> set evs1. nonneg_power rt ev"
    by auto
  from Cons.prems(2) x
  have inv: "\<forall>k r. consumption st k = Some r \<longrightarrow> rec_last r \<le> t \<and> rec_joules r \<noteq> NaN"
    by auto
  obtain st' es thrown where vu: "value_updated rt st ev t = (st', es, thrown)"
    by (cases "value_updated rt st ev t")
  note step = step_mono [OF inv np vu]
  have inv': "\<forall>k r. consumption st' k = Some r \<longrightarrow>
         (\<forall>t \<in> set (map snd (evs1 @ evs2)). rec_last r \<le> t) \<and> rec_joules r \<noteq> NaN"
    using step le by fastforce
  show ?case
    using Cons.IH [OF srt inv' nps] unfolding x run_Cons [OF vu] by simp
qed

lemma run_append:
  "run rt st (evs1 @ evs2) =
     (fst (run rt (fst (run rt st evs1)) evs2),
      snd (run rt st evs1) @ snd (run rt (fst (run rt st evs1)) evs2))"
proof (induction evs1 arbitrary: st)
  case Nil
  then show ?case by simp
next
  case (Cons x evs1)
  obtain ev t where x: "x = (ev, t)" by (cases x)
  obtain st' es thrown where vu: "value_updated rt st ev t = (st', es, thrown)"
    by (cases "value_updated rt st ev t")
  show ?case
    using Cons.IH [of st'] unfolding x append_Cons run_Cons [OF vu] by simp
qed

text \<open>
  C2, as the code has it. The handler has no branch for a negative elapsed time; its clock
  is \<open>performance.now()\<close>, whose readings never go back. With such readings, and while
  the power readings are numbers that are not negative, the total of every key never
  decreases from the moment the key exists, and every increment passed to the counter is
  at least zero, whatever the library does with its calls.
\<close>

theorem joules_nondecreasing:
  assumes srt: "sorted (map snd (evs1 @ evs2))"
    and np: "\<forall>(ev, t) \<in> set (evs1 @ evs2). nonneg_power rt ev"
  shows "(\<forall>k r. consumption (fst (run rt init_state evs1)) k = Some r \<longrightarrow>
            (\<exists>r'. consumption (fst (run rt init_state (evs1 @ evs2))) k = Some r' \<and>
                  jle (rec_joules r) (rec_joules r'))) \<and>
         (\<forall>(l, d) \<in> set (counter_incs (snd (run rt init_state (evs1 @ evs2)))). jle (Fin 0) d)"
proof -
  have init: "\<forall>k r. consumption init_state k = Some r \<longrightarrow>
           (\<forall>t \<in> set (map snd (evs1 @ evs2)). rec_last r \<le> t) \<and> rec_joules r \<noteq> NaN"
    by (simp add: init_state_def)
  from np have np1: "\<forall>(ev, t) \<in> set evs1. nonneg_power rt ev"
    and np2: "\<forall>(ev, t) \<in> set evs2. nonneg_power rt ev" by auto
  from srt have srt2: "sorted (map snd evs2)" by (simp add: sorted_append)
  note mid = run_inv [OF srt init np1]
  from run_mono [OF srt2 mid np2] run_mono [OF srt init np]
  show ?thesis by (simp add: run_append)
qed

text \<open>The handler on the sample readings, step by step.\<close>

lemma value_updated_sample_first:
  "value_updated ascii_rt init_state (sample p) t =
     (\<lparr>metrics = [js ''zwave_electric_w_consumed_watts'' \<mapsto> Some (js ''Power'')],
       consumption = [(3, 0) \<mapsto> \<lparr>rec_last = t, rec_joules = Fin 0\<rparr>]\<rparr>,
      [NewGauge (js ''zwave_electric_w_consumed_watts'') (Some (js ''Power'')),
       GaugeSet (js ''zwave_electric_w_consumed_watts'') sample_labels (JNum (Fin p))],
      None)"
  by (simp add: value_updated_def derive_sample labels_of_sample sample_fields
      sample_gauge_accepted getOrCreate_def accrue_def init_state_def)

lemma value_updated_sample_next:
  "value_updated ascii_rt
     \<lparr>metrics = [js ''zwave_electric_w_consumed_watts'' \<mapsto> h],
      consumption = [(3, 0) \<mapsto> \<lparr>rec_last = t0, rec_joules = Fin j\<rparr>]\<rparr> (sample p) t =
     (\<lparr>metrics = [js ''zwave_electric_w_consumed_watts'' \<mapsto> h],
       consumption = [(3, 0) \<mapsto> \<lparr>rec_last = t, rec_joules = Fin (j + p * ((t - t0) / 1000))\<rparr>]\<rparr>,
      CounterInc sample_labels (Fin (p * ((t - t0) / 1000))) #
        (if 0 \<le> p * ((t - t0) / 1000)
         then [GaugeSet (js ''zwave_electric_w_consumed_watts'') sample_labels (JNum (Fin p))]
         else []),
      if 0 \<le> p * ((t - t0) / 1000) then None else Some IncRejected)"
  by (simp add: value_updated_def derive_sample labels_of_sample sample_fields
      getOrCreate_def accrue_def Let_def)

theorem joules_nondecreasing_witness:
  "sorted (map snd ([(sample 10, 0 :: real)] @ [(sample 20, 5000)])) \<and>
   nonneg_power ascii_rt (sample 10) \<and> nonneg_power ascii_rt (sample 20) \<and>
   consumption (fst (run ascii_rt init_state [(sample 10, 0)])) (3, 0) =
     Some \<lparr>rec_last = 0, rec_joules = Fin 0\<rparr> \<and>
   (\<exists>r'. consumption (fst (run ascii_rt init_state ([(sample 10, 0)] @ [(sample 20, 5000)]))) (3, 0)
            = Some r' \<and> jle (Fin 0) (rec_joules r'))"
  using joules_nondecreasing [of "[(sample 10, 0)]" "[(sample 20, 5000)]" ascii_rt]
  by (simp add: nonneg_power_def derive_sample value_updated_sample_first
      value_updated_sample_next)

text \<open>
  A reading of 10 W at 0 s and one of -10 W at 5 s, the clock going forward: the entry is
  written before the counter is called, so the total falls from 0 to -50 J; the counter is
  called with -50 J and refuses it, and the handler leaves by that exception.
\<close>

theorem negative_power_counterexample:
  "consumption (fst (run ascii_rt init_state [(sample 10, 0)])) (3, 0)
     = Some \<lparr>rec_last = 0, rec_joules = Fin 0\<rparr> \<and>
   consumption (fst (run ascii_rt init_state [(sample 10, 0), (sample (- 10), 5000)])) (3, 0)
     = Some \<lparr>rec_last = 5000, rec_joules = Fin (- 50)\<rparr> \<and>
   counter_incs (snd (run ascii_rt init_state [(sample 10, 0), (sample (- 10), 5000)]))
     = [(sample_labels, Fin (- 50))] \<and>
   snd (snd (value_updated ascii_rt (fst (run ascii_rt init_state [(sample 10, 0)]))
     (sample (- 10)) 5000)) = Some IncRejected \<and>
   \<not> jle (Fin 0) (Fin (- 50))"
  by (simp add: value_updated_sample_first value_updated_sample_next)

subsection \<open>Payloads of other shapes\<close>

lemma derive_text_event:
  "derive ascii_rt text_event = Inr (JUndefined, js ''zwave_location'')"
  by (simp add: derive_def text_event_def value_name_def name_defs host_defs)

lemma derive_coerced:
  "coerce (newValue ev) (md_unit ev) = Inr (v, u) \<Longrightarrow> value_name ev = Some raw \<Longrightarrow>
   derive rt ev = Inr (v, deriveName rt raw (normalize rt u))"
  by (simp add: derive_def)

lemma derive_nullish:
  "newValue ev = PNull \<or> newValue ev = PUndefined \<Longrightarrow> derive rt ev = Inl TypeError"
  by (auto simp: derive_def)

lemma value_updated_text_event:
  "value_updated ascii_rt init_state text_event t =
     (\<lparr>metrics = [js ''zwave_location'' \<mapsto> Some (js ''Location'')], consumption = Map.empty\<rparr>,
      [NewGauge (js ''zwave_location'') (Some (js ''Location'')),
       GaugeSet (js ''zwave_location'') sample_labels JUndefined],
      Some SetRejected)"
proof -
  have acc: "gauge_accepts ascii_rt (js ''zwave_location'') (Some (js ''Location''))"
    by (simp add: ascii_rt_def prom_gauge_accepts_def js_def name_start_def name_char_def)
  have ne: "js ''zwave_location'' \<noteq> js ''zwave_electric_w_consumed_watts''"
    by (simp add: js_def)
  have f: "md_label text_event = Some (js ''Location'')" "labels_of text_event = sample_labels"
    by (simp_all add: text_event_def labels_of_def sample_labels_def)
  show ?thesis
    by (simp add: value_updated_def derive_text_event getOrCreate_def init_state_def acc ne f)
qed

text \<open>
  How a handler that has derived its identifier can end: never by a \<open>TypeError\<close> of its
  own; by the constructor's exception with the state untouched; by the exception of
  \<open>inc\<close> before \<open>set\<close> is called; or after the call of \<open>set\<close>, which is its last.
\<close>

lemma thrown_cases:
  assumes "derive rt ev = Inr (v, n)" and "value_updated rt st ev t = (st', es, x)"
  shows "x \<noteq> Some TypeError \<and>
         (x = Some GaugeRejected \<longrightarrow> st' = st \<and> gauge_sets es = [] \<and> counter_incs es = []) \<and>
         (x = Some IncRejected \<longrightarrow> gauge_sets es = []) \<and>
         (x = Some SetRejected \<longrightarrow>
            \<not> set_accepts rt v \<and> metrics st' n \<noteq> None \<and> gauge_sets es = [(n, labels_of ev, v)]) \<and>
         (x = None \<longrightarrow>
            set_accepts rt v \<and> metrics st' n \<noteq> None \<and> gauge_sets es = [(n, labels_of ev, v)])"
proof (cases "metrics st n \<noteq> None \<or> gauge_accepts rt n (md_label ev)")
  case True
  show ?thesis
    using assms(2) getOrCreate_available [of "metrics st" n rt "md_label ev", OF True]
    unfolding value_updated_reached [OF assms(1) True]
    by (auto simp: accrue_def Let_def split: option.splits if_splits)
next
  case False
  then show ?thesis
    using assms(2) value_updated_rejected [OF assms(1), of st t] by auto
qed

text \<open>
  C3, as the code has it. The handler has no \<open>MalformedValueError\<close> and catches nothing.
  A payload \<open>null\<close> or \<open>undefined\<close> makes it throw a \<open>TypeError\<close> at the coercion,
  before it has made a call or changed \<open>metrics\<close> or \<open>consumption\<close>. A string, or an
  object without a \<open>value\<close>, passes the coercion as \<open>undefined\<close> (with the unit of the
  object if it has one, else the metadata unit) and the handler goes on; as the library's
  \<open>set\<close> refuses \<open>undefined\<close>, it ends by an exception all the same, and never by one
  of its own: at the constructor, with the state untouched; at \<open>inc\<close>, before \<open>set\<close> is
  called; or at \<open>set\<close>, its last call, when the gauge of the identifier is already in
  \<open>metrics\<close>. In no case does a call of \<open>set\<close> return, so the value of the gauge is
  not updated.
\<close>

theorem malformed_payloads:
  "(newValue ev = PNull \<or> newValue ev = PUndefined \<longrightarrow>
      value_updated rt st ev t = (st, [], Some TypeError)) \<and>
   coerce (PStr s) mu = Inr (JUndefined, mu) \<and>
   coerce (PObj JUndefined ou) mu = Inr (JUndefined, nullish_or ou mu) \<and>
   ((newValue ev = PStr s \<or> newValue ev = PObj JUndefined ou) \<and> value_name ev = Some raw \<and>
    \<not> set_accepts rt JUndefined \<longrightarrow>
      (\<exists>u st' es x.
         coerce (newValue ev) (md_unit ev) = Inr (JUndefined, u) \<and>
         value_updated rt st ev t = (st', es, Some x) \<and>
         x \<noteq> TypeError \<and>
         (x = GaugeRejected \<longrightarrow> st' = st \<and> gauge_sets es = []) \<and>
         (x = IncRejected \<longrightarrow> gauge_sets es = []) \<and>
         (x = SetRejected \<longrightarrow>
            metrics st' (deriveName rt raw (normalize rt u)) \<noteq> None \<and>
            gauge_sets es = [(deriveName rt raw (normalize rt u), labels_of ev, JUndefined)])))"
proof -
  have a: "value_updated rt st ev t = (st, [], Some TypeError)"
    if "newValue ev = PNull \<or> newValue ev = PUndefined"
    using value_updated_Inl [OF derive_nullish [OF that]] by simp
  have c: "\<exists>u st' es x.
         coerce (newValue ev) (md_unit ev) = Inr (JUndefined, u) \<and>
         value_updated rt st ev t = (st', es, Some x) \<and>
         x \<noteq> TypeError \<and>
         (x = GaugeRejected \<longrightarrow> st' = st \<and> gauge_sets es = []) \<and>
         (x = IncRejected \<longrightarrow> gauge_sets es = []) \<and>
         (x = SetRejected \<longrightarrow>
            metrics st' (deriveName rt raw (normalize rt u)) \<noteq> None \<and>
            gauge_sets es = [(deriveName rt raw (normalize rt u), labels_of ev, JUndefined)])"
    if shape: "newValue ev = PStr s \<or> newValue ev = PObj JUndefined ou"
      and raw: "value_name ev = Some raw" and rej: "\<not> set_accepts rt JUndefined"
  proof -
    obtain u where co: "coerce (newValue ev) (md_unit ev) = Inr (JUndefined, u)"
      using shape by auto
    note d = derive_coerced [OF co raw]
    obtain st' es x where vu: "value_updated rt st ev t = (st', es, x)"
      by (cases "value_updated rt st ev t")
    from thrown_cases [OF d vu] rej obtain e where x: "x = Some e"
      by (cases x) auto
    from thrown_cases [OF d vu] co vu show ?thesis
      unfolding x by auto
  qed
  show ?thesis using a c by simp
qed

theorem malformed_payloads_witness:
  "newValue (text_event\<lparr>newValue := PNull\<rparr>) = PNull \<and>
   value_updated ascii_rt init_state (text_event\<lparr>newValue := PNull\<rparr>) 0
     = (init_state, [], Some TypeError) \<and>
   newValue text_event = PStr (js ''hall'') \<and>
   value_name text_event = Some (js ''Location'') \<and>
   \<not> set_accepts ascii_rt JUndefined \<and>
   (\<exists>st' es. value_updated ascii_rt init_state text_event 0 = (st', es, Some SetRejected) \<and>
      metrics st' (js ''zwave_location'') \<noteq> None \<and>
      gauge_sets es = [(js ''zwave_location'', sample_labels, JUndefined)])"
proof -
  have n: "newValue (text_event\<lparr>newValue := PNull\<rparr>) = PNull" by simp
  have a: "value_updated ascii_rt init_state (text_event\<lparr>newValue := PNull\<rparr>) 0
     = (init_state, [], Some TypeError)"
    using malformed_payloads [where ev = "text_event\<lparr>newValue := PNull\<rparr>" and rt = ascii_rt
      and st = init_state and t = 0 and s = "[]" and mu = None and ou = None and raw = "[]"] n
    by blast
  have s: "newValue text_event = PStr (js ''hall'')"
    and r: "value_name text_event = Some (js ''Location'')"
    by (simp_all add: text_event_def value_name_def)
  have rej: "\<not> set_accepts ascii_rt JUndefined" by simp
  have nm: "deriveName ascii_rt (js ''Location'') (normalize ascii_rt None) = js ''zwave_location''"
    by (simp add: name_defs host_defs)
  have co: "coerce (newValue text_event) (md_unit text_event) = Inr (JUndefined, None)"
    by (simp add: text_event_def)
  from malformed_payloads [where ev = text_event and rt = ascii_rt and st = init_state
      and t = 0 and s = "js ''hall''" and mu = None and ou = None and raw = "js ''Location''"]
    s r rej
  obtain u st' es x where
    c: "coerce (newValue text_event) (md_unit text_event) = Inr (JUndefined, u)"
    and vu: "value_updated ascii_rt init_state text_event 0 = (st', es, Some x)"
    and set: "x = SetRejected \<longrightarrow>
            metrics st' (deriveName ascii_rt (js ''Location'') (normalize ascii_rt u)) \<noteq> None \<and>
            gauge_sets es
              = [(deriveName ascii_rt (js ''Location'') (normalize ascii_rt u),
                  labels_of text_event, JUndefined)]"
    by blast
  from c co have u: "u = None" by simp
  from vu have x: "x = SetRejected" by (simp add: value_updated_text_event)
  have l: "labels_of text_event = sample_labels"
    by (simp add: text_event_def labels_of_def sample_labels_def)
  from vu set have "\<exists>st' es. value_updated ascii_rt init_state text_event 0
        = (st', es, Some SetRejected) \<and>
      metrics st' (js ''zwave_location'') \<noteq> None \<and>
      gauge_sets es = [(js ''zwave_location'', sample_labels, JUndefined)]"
    unfolding x u nm l by blast
  with n a s r rej show ?thesis by (intro conjI)
qed

text \<open>
  The string payload \<open>'hall'\<close> of property \<open>Location\<close>: the coercion returns
  \<open>undefined\<close> without an error, the handler creates and caches the gauge
  \<open>zwave_location\<close> and only then leaves, by the exception of \<open>set\<close>.
\<close>

theorem malformed_payload_counterexample:
  "coerce (newValue text_event) (md_unit text_event) = Inr (JUndefined, None) \<and>
   metrics (fst (value_updated ascii_rt init_state text_event 0)) (js ''zwave_location'')
     = Some (Some (js ''Location'')) \<and>
   fst (snd (value_updated ascii_rt init_state text_event 0)) =
     [NewGauge (js ''zwave_location'') (Some (js ''Location'')),
      GaugeSet (js ''zwave_location'') sample_labels JUndefined] \<and>
   snd (snd (value_updated ascii_rt init_state text_event 0)) = Some SetRejected"
  by (simp add: value_updated_text_event) (simp add: text_event_def)

subsection \<open>Coercion of the three valid shapes\<close>

text \<open>
  C5. A boolean yields 1 for \<open>true\<close> and 0 for \<open>false\<close>, with no unit; a number yields
  itself with the metadata unit; a composite object yields its value with its own unit
  when it has one, else with the metadata unit. The last two lines are the examples of
  the specification.
\<close>

theorem coerce_valid_shapes:
  "coerce (PBool True) mu = Inr (JNum (Fin 1), None) \<and>
   coerce (PBool False) mu = Inr (JNum (Fin 0), None) \<and>
   coerce (PNum x) mu = Inr (JNum x, mu) \<and>
   coerce (PObj v (Some u)) mu = Inr (v, Some u) \<and>
   coerce (PObj v None) mu = Inr (v, mu) \<and>
   coerce (PNum (Fin 42)) (Some (js ''W'')) = Inr (JNum (Fin 42), Some (js ''W'')) \<and>
   coerce (PObj (JNum (Fin 3.3)) (Some (js ''V''))) mu = Inr (JNum (Fin 3.3), Some (js ''V''))"
  by simp

subsection \<open>Watchdog\<close>

lemma ticks_exceeds: "ticks m obs = (if \<exists>r \<in> set obs. m < r then Exited 1 else Running)"
  by (induction obs) auto

text \<open>
  C7. With a positive ceiling, a tick that reads a resident size above the ceiling ends the
  process with status 1 (at that tick, or at an earlier one that did so); with a ceiling
  that is zero, negative or unset the timer is never installed and the process keeps
  running whatever the readings are. With a positive ceiling and no reading above it the
  process keeps running as well.
\<close>

theorem watchdog_exit:
  "(0 < m \<and> m < rss \<longrightarrow> watchdog m (pre @ rss # post) = Exited 1) \<and>
   (m \<le> 0 \<longrightarrow> watchdog m obs = Running) \<and>
   watchdog (MAX_RSS None) obs = Running \<and>
   watchdog (MAX_RSS (Some 0)) obs = Running \<and>
   (0 < m \<and> (\<forall>r \<in> set obs. r \<le> m) \<longrightarrow> watchdog m obs = Running)"
proof -
  have "watchdog m obs = Running" if "0 < m" "\<forall>r \<in> set obs. r \<le> m"
    using that by (fastforce simp: watchdog_def ticks_exceeds)
  moreover have "watchdog m (pre @ rss # post) = Exited 1" if "0 < m" "m < rss"
    using that by (simp add: watchdog_def ticks_exceeds)
  ultimately show ?thesis
    by (simp add: watchdog_def MAX_RSS_def)
qed

theorem watchdog_exit_witness:
  "(0::int) < 1000 \<and> (1000::int) < 1500 \<and> watchdog (MAX_RSS (Some 1000)) [1500] = Exited 1 \<and>
   MAX_RSS None \<le> 0 \<and> watchdog (MAX_RSS None) [1500] = Running \<and>
   watchdog (MAX_RSS (Some 1000)) [900, 1000] = Running"
  using watchdog_exit [of 1000 1500 "[]" "[]" "[900, 1000]"]
    watchdog_exit [of "MAX_RSS None" 1500 "[]" "[]" "[1500]"]
  by (simp add: MAX_RSS_def)

subsection \<open>Choice of the raw name\<close>

text \<open>
  C10. The raw name is \<open>propertyKeyName\<close> when that is a string that is not empty, and
  \<open>propertyName\<close> when \<open>propertyKeyName\<close> is absent or empty; the identifier of the event
  is derived from the name so chosen (and the handler throws when there is none).
\<close>

theorem raw_name_selection:
  "(propertyKeyName ev = Some k \<and> k \<noteq> [] \<longrightarrow> value_name ev = Some k) \<and>
   (propertyKeyName ev = None \<or> propertyKeyName ev = Some [] \<longrightarrow>
      value_name ev = propertyName ev) \<and>
   (coerce (newValue ev) (md_unit ev) = Inr (v, u) \<longrightarrow>
      derive rt ev =
        (case value_name ev of
           None \<Rightarrow> Inl TypeError
         | Some raw \<Rightarrow> Inr (v, deriveName rt raw (normalize rt u))))"
  by (auto simp: value_name_def derive_def split: option.splits)

text \<open>
  The meter readings of the driver carry \<open>propertyName = 'value'\<close> and the reading's name
  in \<open>propertyKeyName\<close>; an empty or absent \<open>propertyKeyName\<close> leaves \<open>propertyName\<close>.
\<close>

theorem raw_name_selection_witness:
  "propertyKeyName (sample 10\<lparr>propertyName := Some (js ''value''),
       propertyKeyName := Some (js ''Electric_W_Consumed'')\<rparr>) = Some (js ''Electric_W_Consumed'') \<and>
   js ''Electric_W_Consumed'' \<noteq> [] \<and>
   value_name (sample 10\<lparr>propertyName := Some (js ''value''),
       propertyKeyName := Some (js ''Electric_W_Consumed'')\<rparr>) = Some (js ''Electric_W_Consumed'') \<and>
   propertyKeyName (sample 10\<lparr>propertyKeyName := Some []\<rparr>) = Some [] \<and>
   value_name (sample 10\<lparr>propertyKeyName := Some []\<rparr>) = Some (js ''Electric W Consumed'') \<and>
   propertyKeyName (sample 10) = None \<and>
   value_name (sample 10) = Some (js ''Electric W Consumed'') \<and>
   derive ascii_rt (sample 10\<lparr>propertyName := Some (js ''value''),
       propertyKeyName := Some (js ''Electric_W_Consumed'')\<rparr>)
     = Inr (JNum (Fin 10), js ''zwave_electric_w_consumed_watts'')"
  using raw_name_selection [of "sample 10\<lparr>propertyName := Some (js ''value''),
       propertyKeyName := Some (js ''Electric_W_Consumed'')\<rparr>" "js ''Electric_W_Consumed''"
       "JNum (Fin 10)" "Some (js ''W'')" ascii_rt]
    raw_name_selection [of "sample 10\<lparr>propertyKeyName := Some []\<rparr>" "[]" "JNum (Fin 10)"
       "Some (js ''W'')" ascii_rt]
    raw_name_selection [of "sample 10" "[]" "JNum (Fin 10)" "Some (js ''W'')" ascii_rt]
  by (simp add: sample_def name_defs host_defs)

subsection \<open>Characters of the identifier\<close>

lemma sanitize_clean: "set (sanitize rt raw) \<inter> forbidden = {}"
  by (auto simp: sanitize_def strip_parens_def replace_unit_def forbidden_def)

lemma prefix_clean: "set (js ''zwave_'') \<inter> forbidden = {}"
  by (simp add: js_def forbidden_def)

lemma table_clean:
  "map_of unit_mapping u = Some s \<Longrightarrow> set s \<inter> forbidden = {}"
  by (auto simp: unit_mapping_def js_def forbidden_def split: if_splits)

lemma table_dom:
  "u \<in> fst ` set unit_mapping \<Longrightarrow> u \<noteq> [] \<and> (\<exists>s. map_of unit_mapping u = Some s)"
  by (auto simp: unit_mapping_def js_def)

text \<open>
  C6, as the code has it. The identifier is the prefix \<open>zwave_\<close>, the sanitised raw name
  and the suffix, and only the raw name is sanitised: the part that comes from the raw name
  holds no space, no subscript two and no parenthesis, for every raw name. The suffix is
  appended as it is, so the identifier is free of these characters exactly when the suffix
  is. It is so when the unit is absent, empty or one of the seven units of the table.
\<close>

theorem identifier_characters:
  "metric_name rt (Some raw) suffix = Inr (js ''zwave_'' @ sanitize rt raw @ suffix) \<and>
   set (sanitize rt raw) \<inter> forbidden = {} \<and>
   (set (deriveName rt raw suffix) \<inter> forbidden = {}) = (set suffix \<inter> forbidden = {}) \<and>
   (unit = None \<or> unit = Some [] \<or> (\<exists>u. unit = Some u \<and> u \<in> fst ` set unit_mapping) \<longrightarrow>
      set (deriveName rt raw (normalize rt unit)) \<inter> forbidden = {})"
proof -
  have iff: "(set (deriveName rt raw sfx) \<inter> forbidden = {}) = (set sfx \<inter> forbidden = {})" for sfx
    using sanitize_clean [of rt raw] prefix_clean by (auto simp: deriveName_def)
  have "set (normalize rt unit) \<inter> forbidden = {}"
    if h: "unit = None \<or> unit = Some [] \<or> (\<exists>u. unit = Some u \<and> u \<in> fst ` set unit_mapping)"
  proof -
    consider "unit = None \<or> unit = Some []" | u where "unit = Some u" "u \<in> fst ` set unit_mapping"
      using h by blast
    then show ?thesis
    proof cases
      case 1
      then show ?thesis by (auto simp: normalize_def)
    next
      case 2
      from table_dom [OF 2(2)] obtain s where "u \<noteq> []" "map_of unit_mapping u = Some s" by blast
      with 2 table_clean show ?thesis
        by (simp add: normalize_def unit_lookup_def)
    qed
  qed
  with iff show ?thesis
    by (simp add: deriveName_def sanitize_clean)
qed

theorem identifier_characters_witness:
  "js ''W'' \<in> fst ` set unit_mapping \<and>
   deriveName ascii_rt (js ''Air (level)'') (normalize ascii_rt (Some (js ''W'')))
     = js ''zwave_air_level_watts'' \<and>
   set (deriveName ascii_rt (js ''Air (level)'') (normalize ascii_rt (Some (js ''W''))))
     \<inter> forbidden = {}"
  using identifier_characters [of ascii_rt "js ''Air (level)''" "[]" "Some (js ''W'')"]
  by (simp add: name_defs host_defs)

text \<open>
  The unit \<open>UV index\<close> is not in the table, so it is the suffix, and the identifier of the
  property \<open>Ultraviolet\<close> holds its space.
\<close>

theorem identifier_characters_counterexample:
  "metric_name ascii_rt (Some (js ''Ultraviolet'')) (normalize ascii_rt (Some (js ''UV index'')))
     = Inr (js ''zwave_ultravioletUV index'') \<and>
   0x20 \<in> set (js ''zwave_ultravioletUV index'')"
  by (simp add: name_defs host_defs)

subsection \<open>Registry cache\<close>

lemma registered_append [simp]: "registered rt (xs @ ys) = registered rt xs @ registered rt ys"
  by (simp add: registered_def)

lemma registered_Nil [simp]: "registered rt [] = []"
  by (simp add: registered_def)

lemma value_updated_gauges:
  assumes d: "derive rt ev = Inr (v, n)" and vu: "value_updated rt st ev t = (st', es, x)"
  shows "metrics st' = fst (getOrCreate rt (metrics st) n (md_label ev)) \<and>
         new_gauges es = new_gauges (fst (snd (getOrCreate rt (metrics st) n (md_label ev))))"
proof (cases "metrics st n \<noteq> None \<or> gauge_accepts rt n (md_label ev)")
  case True
  have "new_gauges (fst (snd (if n = js ''zwave_electric_w_consumed_watts''
          then accrue rt (consumption st) (node_id ev, endpoint ev) v (labels_of ev) t
          else (consumption st, [], None)))) = []"
    by simp
  then show ?thesis
    using vu unfolding value_updated_reached [OF d True] by auto
next
  case False
  then show ?thesis
    using vu value_updated_rejected [OF d, of st t] by (auto simp: getOrCreate_def)
qed

lemma step_registry:
  assumes "value_updated rt st ev t = (st', es, x)"
  shows "(registered rt es = [] \<and> metrics st' = metrics st) \<or>
         (\<exists>n h. metrics st n = None \<and> registered rt es = [(n, h)] \<and>
            metrics st' = (metrics st)(n \<mapsto> h))"
proof (cases "derive rt ev")
  case (Inl e)
  then show ?thesis using assms by (simp add: value_updated_def)
next
  case (Inr res)
  obtain v n where res: "res = (v, n)" by (cases res)
  note d = Inr [unfolded res]
  from value_updated_gauges [OF d assms] show ?thesis
    by (auto simp: getOrCreate_def registered_def)
qed

lemma run_registry:
  "distinct (map fst (registered rt (snd (run rt st evs)))) \<and>
   set (map fst (registered rt (snd (run rt st evs)))) \<inter> dom (metrics st) = {} \<and>
   metrics (fst (run rt st evs)) = map_of (registered rt (snd (run rt st evs))) ++ metrics st"
proof (induction evs arbitrary: st)
  case Nil
  then show ?case by simp
next
  case (Cons x evs)
  obtain ev t where x: "x = (ev, t)" by (cases x)
  obtain st' es thrown where vu: "value_updated rt st ev t = (st', es, thrown)"
    by (cases "value_updated rt st ev t")
  note run = run_Cons [OF vu, of evs]
  let ?rest = "registered rt (snd (run rt st' evs))"
  from Cons.IH [of st'] have dist: "distinct (map fst ?rest)"
    and disj': "set (map fst ?rest) \<inter> dom (metrics st') = {}"
    and mfin: "metrics (fst (run rt st' evs)) = map_of ?rest ++ metrics st'"
    by blast+
  from step_registry [OF vu]
  consider "registered rt es = []" "metrics st' = metrics st"
    | n h where "metrics st n = None" "registered rt es = [(n, h)]"
        "metrics st' = (metrics st)(n \<mapsto> h)"
    by blast
  then show ?case
  proof cases
    case 1
    with dist disj' mfin show ?thesis unfolding x run by simp
  next
    case 2
    from disj' 2(3) have notin: "n \<notin> set (map fst ?rest)"
      and disj: "set (map fst ?rest) \<inter> dom (metrics st) = {}"
      by auto
    have eq: "map_of ?rest ++ (metrics st)(n \<mapsto> h) = map_of ((n, h) # ?rest) ++ metrics st"
    proof
      fix k
      show "(map_of ?rest ++ (metrics st)(n \<mapsto> h)) k = (map_of ((n, h) # ?rest) ++ metrics st) k"
        using 2(1) by (auto simp: map_add_def split: option.splits)
    qed
    have a: "distinct (map fst (registered rt (es @ snd (run rt st' evs))))"
      using 2(2) dist notin by simp
    have b: "set (map fst (registered rt (es @ snd (run rt st' evs)))) \<inter> dom (metrics st) = {}"
      using 2(1,2) disj by (simp add: domIff)
    have c: "metrics (fst (run rt st' evs))
               = map_of (registered rt (es @ snd (run rt st' evs))) ++ metrics st"
      using mfin 2(2,3) eq by (simp only: registered_append append_Cons append_Nil)
    from a b c show ?thesis unfolding x run by (simp only: fst_conv snd_conv)
  qed
qed

lemma run_first_wins:
  "metrics (fst (run rt st evs1)) n = Some h \<Longrightarrow>
   metrics (fst (run rt st (evs1 @ evs2))) n = Some h"
proof -
  assume a: "metrics (fst (run rt st evs1)) n = Some h"
  have "metrics (fst (run rt st (evs1 @ evs2)))
          = map_of (registered rt (snd (run rt (fst (run rt st evs1)) evs2)))
              ++ metrics (fst (run rt st evs1))"
    using run_registry [of rt "fst (run rt st evs1)" evs2] by (simp add: run_append)
  with a show ?thesis by (simp add: map_add_Some_iff)
qed

text \<open>
  C4, as the code has it. When the identifier of an event is not a key of \<open>metrics\<close>, the
  handler calls the constructor once, with the label of that event as description. If the
  constructor returns, the gauge is stored under the identifier. If it throws, nothing is
  stored, the handler leaves by that exception and the state is as before, so the next
  event of that identifier calls the constructor again. When the identifier is a key, the
  handler builds nothing and leaves \<open>metrics\<close> as it is, whatever label the event
  carries. Over any sequence of events from the start, no identifier has two gauges,
  \<open>metrics\<close> holds exactly the gauges whose constructor returned, and an entry once made
  stays as it is.
\<close>

theorem registry_cache:
  "(derive rt ev = Inr (v, n) \<and> metrics st n = None \<and> gauge_accepts rt n (md_label ev) \<longrightarrow>
      (\<exists>st' es x. value_updated rt st ev t = (st', es, x) \<and>
         new_gauges es = [(n, md_label ev)] \<and>
         metrics st' = (metrics st)(n \<mapsto> md_label ev))) \<and>
   (derive rt ev = Inr (v, n) \<and> metrics st n = None \<and> \<not> gauge_accepts rt n (md_label ev) \<longrightarrow>
      value_updated rt st ev t = (st, [NewGauge n (md_label ev)], Some GaugeRejected)) \<and>
   (derive rt ev = Inr (v, n) \<and> n \<in> dom (metrics st) \<longrightarrow>
      (\<exists>st' es x. value_updated rt st ev t = (st', es, x) \<and>
         new_gauges es = [] \<and> metrics st' = metrics st)) \<and>
   distinct (map fst (registered rt (snd (run rt init_state evs)))) \<and>
   metrics (fst (run rt init_state evs)) = map_of (registered rt (snd (run rt init_state evs))) \<and>
   (metrics (fst (run rt init_state evs)) m = Some h \<longrightarrow>
      metrics (fst (run rt init_state (evs @ later))) m = Some h)"
proof -
  have a: "\<exists>st' es x. value_updated rt st ev t = (st', es, x) \<and>
         new_gauges es = [(n, md_label ev)] \<and>
         metrics st' = (metrics st)(n \<mapsto> md_label ev)"
    if d: "derive rt ev = Inr (v, n)" and new: "metrics st n = None"
      and acc: "gauge_accepts rt n (md_label ev)"
  proof -
    obtain st' es x where vu: "value_updated rt st ev t = (st', es, x)"
      by (cases "value_updated rt st ev t")
    from value_updated_gauges [OF d vu] new acc vu show ?thesis
      by (simp add: getOrCreate_def)
  qed
  have b: "\<exists>st' es x. value_updated rt st ev t = (st', es, x) \<and>
         new_gauges es = [] \<and> metrics st' = metrics st"
    if d: "derive rt ev = Inr (v, n)" and old: "n \<in> dom (metrics st)"
  proof -
    obtain st' es x where vu: "value_updated rt st ev t = (st', es, x)"
      by (cases "value_updated rt st ev t")
    from value_updated_gauges [OF d vu] old vu show ?thesis
      by (auto simp: getOrCreate_def)
  qed
  have c: "distinct (map fst (registered rt (snd (run rt init_state evs))))"
    and e: "metrics (fst (run rt init_state evs))
              = map_of (registered rt (snd (run rt init_state evs)))"
    using run_registry [of rt init_state evs] by (simp_all add: init_state_def)
  from a b c e value_updated_rejected [of rt ev v n st t]
    run_first_wins [of rt init_state evs m h later]
  show ?thesis
    by blast
qed

lemma derive_sample_label:
  "derive ascii_rt (sample p\<lparr>md_label := l\<rparr>)
     = Inr (JNum (Fin p), js ''zwave_electric_w_consumed_watts'')"
  by (simp add: derive_def sample_def value_name_def name_defs host_defs)

lemma derive_uv_event:
  "derive ascii_rt uv_event = Inr (JNum (Fin 4), js ''zwave_ultravioletUV index'')"
  by (simp add: derive_def uv_event_def value_name_def name_defs host_defs)

lemma uv_rejected:
  "\<not> gauge_accepts ascii_rt (js ''zwave_ultravioletUV index'') (md_label uv_event)"
  by (simp add: ascii_rt_def prom_gauge_accepts_def js_def name_start_def name_char_def)

lemma value_updated_uv_event:
  "value_updated ascii_rt init_state uv_event t =
     (init_state, [NewGauge (js ''zwave_ultravioletUV index'') (Some (js ''Ultraviolet''))],
      Some GaugeRejected)"
  using value_updated_rejected [OF derive_uv_event _ uv_rejected, of init_state t]
  by (simp add: init_state_def uv_event_def)

text \<open>
  The first power reading registers the gauge with the description \<open>Power\<close>; a later
  reading of the same identifier that carries the description \<open>Other\<close> registers nothing
  and the description stays \<open>Power\<close>. The identifier of the reading in \<open>UV index\<close> is
  refused.
\<close>

theorem registry_cache_witness:
  "derive ascii_rt (sample 10) = Inr (JNum (Fin 10), js ''zwave_electric_w_consumed_watts'') \<and>
   metrics init_state (js ''zwave_electric_w_consumed_watts'') = None \<and>
   gauge_accepts ascii_rt (js ''zwave_electric_w_consumed_watts'') (md_label (sample 10)) \<and>
   (\<exists>st' es x. value_updated ascii_rt init_state (sample 10) 0 = (st', es, x) \<and>
      new_gauges es = [(js ''zwave_electric_w_consumed_watts'', Some (js ''Power''))]) \<and>
   js ''zwave_electric_w_consumed_watts''
     \<in> dom (metrics (fst (run ascii_rt init_state [(sample 10, 0)]))) \<and>
   (\<exists>st' es x. value_updated ascii_rt (fst (run ascii_rt init_state [(sample 10, 0)]))
        (sample 20\<lparr>md_label := Some (js ''Other'')\<rparr>) 5000 = (st', es, x) \<and>
      new_gauges es = [] \<and>
      metrics st' (js ''zwave_electric_w_consumed_watts'') = Some (Some (js ''Power''))) \<and>
   derive ascii_rt uv_event = Inr (JNum (Fin 4), js ''zwave_ultravioletUV index'') \<and>
   \<not> gauge_accepts ascii_rt (js ''zwave_ultravioletUV index'') (md_label uv_event) \<and>
   value_updated ascii_rt init_state uv_event 0
     = (init_state, [NewGauge (js ''zwave_ultravioletUV index'') (md_label uv_event)],
        Some GaugeRejected)"
proof -
  let ?n = "js ''zwave_electric_w_consumed_watts''"
  let ?st1 = "fst (run ascii_rt init_state [(sample 10, 0)])"
  have s1: "metrics ?st1 = [?n \<mapsto> Some (js ''Power'')]"
    by (simp add: value_updated_sample_first)
  have h2: "metrics init_state ?n = None"
    by (simp add: init_state_def)
  have h3: "?n \<in> dom (metrics ?st1)"
    by (simp only: s1) simp
  have acc: "gauge_accepts ascii_rt ?n (md_label (sample 10))"
    using sample_gauge_accepted by (simp add: sample_fields)
  have a: "\<exists>st' es x. value_updated ascii_rt init_state (sample 10) 0 = (st', es, x) \<and>
      new_gauges es = [(?n, md_label (sample 10))]"
    using registry_cache [where rt = ascii_rt and ev = "sample 10" and v = "JNum (Fin 10)"
      and n = ?n and st = init_state and t = 0 and evs = "[]" and later = "[]"]
      derive_sample [of 10] h2 acc by blast
  have b: "\<exists>st' es x. value_updated ascii_rt ?st1
        (sample 20\<lparr>md_label := Some (js ''Other'')\<rparr>) 5000 = (st', es, x) \<and>
      new_gauges es = [] \<and> metrics st' = metrics ?st1"
    using registry_cache [where rt = ascii_rt
      and ev = "sample 20\<lparr>md_label := Some (js ''Other'')\<rparr>"
      and v = "JNum (Fin 20)" and n = ?n and st = ?st1 and t = 5000
      and evs = "[]" and later = "[]"]
      derive_sample_label [where p = 20 and l = "Some (js ''Other'')"] h3 by blast
  from b have b': "\<exists>st' es x. value_updated ascii_rt ?st1
        (sample 20\<lparr>md_label := Some (js ''Other'')\<rparr>) 5000 = (st', es, x) \<and>
      new_gauges es = [] \<and> metrics st' ?n = Some (Some (js ''Power''))"
    by (simp only: s1) auto
  from a have a': "\<exists>st' es x. value_updated ascii_rt init_state (sample 10) 0 = (st', es, x) \<and>
      new_gauges es = [(?n, Some (js ''Power''))]"
    by (simp only: sample_fields)
  have u0: "metrics init_state (js ''zwave_ultravioletUV index'') = None"
    by (simp add: init_state_def)
  have c: "value_updated ascii_rt init_state uv_event 0
     = (init_state, [NewGauge (js ''zwave_ultravioletUV index'') (md_label uv_event)],
        Some GaugeRejected)"
    using registry_cache [where rt = ascii_rt and ev = uv_event and v = "JNum (Fin 4)"
      and n = "js ''zwave_ultravioletUV index''" and st = init_state and t = 0
      and evs = "[]" and later = "[]"]
      derive_uv_event u0 uv_rejected by blast
  from derive_sample [of 10] h2 acc a' h3 b' derive_uv_event uv_rejected c show ?thesis
    by (intro conjI)
qed

text \<open>
  The identifier \<open>zwave_ultravioletUV index\<close> holds a space, so the constructor throws:
  the first lookup creates nothing, \<open>metrics\<close> stays empty, and the second lookup calls
  the constructor again instead of finding a cached gauge.
\<close>

theorem registry_cache_counterexample:
  "derive ascii_rt uv_event = Inr (JNum (Fin 4), js ''zwave_ultravioletUV index'') \<and>
   value_updated ascii_rt init_state uv_event 0
     = (init_state, [NewGauge (js ''zwave_ultravioletUV index'') (Some (js ''Ultraviolet''))],
        Some GaugeRejected) \<and>
   run ascii_rt init_state [(uv_event, 0), (uv_event, 1000)]
     = (init_state,
        [NewGauge (js ''zwave_ultravioletUV index'') (Some (js ''Ultraviolet'')),
         NewGauge (js ''zwave_ultravioletUV index'') (Some (js ''Ultraviolet''))]) \<and>
   metrics init_state (js ''zwave_ultravioletUV index'') = None"
  by (simp add: derive_uv_event value_updated_uv_event) (simp add: init_state_def)

subsection \<open>Derivation is total and repeatable\<close>

lemma gauge_names:
  assumes d: "derive rt ev = Inr (v, n)" and vu: "value_updated rt st ev t = (st', es, x)"
  shows "set (map fst (new_gauges es)) \<union> set (map fst (gauge_sets es)) \<subseteq> {n}"
proof -
  from value_updated_gauges [OF d vu]
  have "set (map fst (new_gauges es)) \<subseteq> {n}" by (auto simp: getOrCreate_def split: if_splits)
  moreover from thrown_cases [OF d vu] have "set (map fst (gauge_sets es)) \<subseteq> {n}"
    by (cases x rule: option.exhaust; cases "the x") auto
  ultimately show ?thesis by blast
qed

text \<open>
  C8. For every raw name that is a string and every suffix the derivation returns an
  identifier and does not throw. Two events with the same raw name and the same unit get
  the same identifier whatever the states and the clock readings are at which they are
  handled: the identifier is a function of the raw name and the suffix alone, the handler
  never leaves by a \<open>TypeError\<close> of its own, every call that names a gauge names that
  identifier, and a handler that returns has set the gauge of that identifier. The unit
  normalizer returns a suffix for every unit, absent and empty included: the empty suffix
  for those two, else the looked-up member or the unit itself.
\<close>

theorem derivation_total:
  "(\<exists>n. metric_name rt (Some raw) suffix = Inr n) \<and>
   (value_name e1 = Some raw \<and> value_name e2 = Some raw \<and>
    coerce (newValue e1) (md_unit e1) = Inr (v1, u) \<and>
    coerce (newValue e2) (md_unit e2) = Inr (v2, u) \<longrightarrow>
      derive rt e1 = Inr (v1, deriveName rt raw (normalize rt u)) \<and>
      derive rt e2 = Inr (v2, deriveName rt raw (normalize rt u)) \<and>
      (\<exists>s1 x1 r1 s2 x2 r2.
         value_updated rt st1 e1 t1 = (s1, x1, r1) \<and>
         value_updated rt st2 e2 t2 = (s2, x2, r2) \<and>
         r1 \<noteq> Some TypeError \<and> r2 \<noteq> Some TypeError \<and>
         set (map fst (new_gauges x1)) \<union> set (map fst (gauge_sets x1))
           \<subseteq> {deriveName rt raw (normalize rt u)} \<and>
         set (map fst (new_gauges x2)) \<union> set (map fst (gauge_sets x2))
           \<subseteq> {deriveName rt raw (normalize rt u)} \<and>
         (r1 = None \<longrightarrow> map fst (gauge_sets x1) = [deriveName rt raw (normalize rt u)]) \<and>
         (r2 = None \<longrightarrow> map fst (gauge_sets x2) = [deriveName rt raw (normalize rt u)]))) \<and>
   normalize rt None = [] \<and>
   normalize rt (Some []) = [] \<and>
   (w \<noteq> [] \<longrightarrow>
      normalize rt (Some w) = (case unit_lookup rt w of Some s \<Rightarrow> s | None \<Rightarrow> w))"
proof -
  let ?N = "deriveName rt raw (normalize rt u)"
  have "derive rt e1 = Inr (v1, ?N) \<and> derive rt e2 = Inr (v2, ?N) \<and>
      (\<exists>s1 x1 r1 s2 x2 r2.
         value_updated rt st1 e1 t1 = (s1, x1, r1) \<and>
         value_updated rt st2 e2 t2 = (s2, x2, r2) \<and>
         r1 \<noteq> Some TypeError \<and> r2 \<noteq> Some TypeError \<and>
         set (map fst (new_gauges x1)) \<union> set (map fst (gauge_sets x1)) \<subseteq> {?N} \<and>
         set (map fst (new_gauges x2)) \<union> set (map fst (gauge_sets x2)) \<subseteq> {?N} \<and>
         (r1 = None \<longrightarrow> map fst (gauge_sets x1) = [?N]) \<and>
         (r2 = None \<longrightarrow> map fst (gauge_sets x2) = [?N]))"
    if n1: "value_name e1 = Some raw" and n2: "value_name e2 = Some raw"
      and c1: "coerce (newValue e1) (md_unit e1) = Inr (v1, u)"
      and c2: "coerce (newValue e2) (md_unit e2) = Inr (v2, u)"
  proof -
    note d1 = derive_coerced [OF c1 n1, of rt] and d2 = derive_coerced [OF c2 n2, of rt]
    obtain s1 x1 r1 where vu1: "value_updated rt st1 e1 t1 = (s1, x1, r1)"
      by (cases "value_updated rt st1 e1 t1")
    obtain s2 x2 r2 where vu2: "value_updated rt st2 e2 t2 = (s2, x2, r2)"
      by (cases "value_updated rt st2 e2 t2")
    from thrown_cases [OF d1 vu1] thrown_cases [OF d2 vu2]
      gauge_names [OF d1 vu1] gauge_names [OF d2 vu2] d1 d2 vu1 vu2
    show ?thesis by auto
  qed
  then show ?thesis
    by (simp add: normalize_def)
qed


theorem derivation_total_witness:
  "value_name (sample 10) = Some (js ''Electric W Consumed'') \<and>
   value_name (sample 20) = Some (js ''Electric W Consumed'') \<and>
   coerce (newValue (sample 10)) (md_unit (sample 10)) = Inr (JNum (Fin 10), Some (js ''W'')) \<and>
   coerce (newValue (sample 20)) (md_unit (sample 20)) = Inr (JNum (Fin 20), Some (js ''W'')) \<and>
   js ''W'' \<noteq> [] \<and> normalize ascii_rt (Some (js ''W'')) = js ''_watts'' \<and>
   (\<exists>s1 x1 s2 x2.
      value_updated ascii_rt init_state (sample 10) 0 = (s1, x1, None) \<and>
      value_updated ascii_rt (fst (run ascii_rt init_state [(sample 10, 0)])) (sample 20) 5000
        = (s2, x2, None) \<and>
      map fst (gauge_sets x1) = [js ''zwave_electric_w_consumed_watts''] \<and>
      map fst (gauge_sets x2) = [js ''zwave_electric_w_consumed_watts''])"
proof -
  let ?st1 = "fst (run ascii_rt init_state [(sample 10, 0)])"
  have n: "value_name (sample p) = Some (js ''Electric W Consumed'')" for p
    by (simp add: sample_def value_name_def)
  have c: "coerce (newValue (sample p)) (md_unit (sample p)) = Inr (JNum (Fin p), Some (js ''W''))"
    for p by (simp add: sample_def)
  have w: "js ''W'' \<noteq> []" by (simp add: js_def)
  have sfx: "normalize ascii_rt (Some (js ''W'')) = js ''_watts''"
    by (simp add: name_defs host_defs)
  have nm: "deriveName ascii_rt (js ''Electric W Consumed'') (normalize ascii_rt (Some (js ''W'')))
              = js ''zwave_electric_w_consumed_watts''"
    by (simp add: name_defs host_defs)
  have r1: "snd (snd (value_updated ascii_rt init_state (sample 10) 0)) = None"
    by (simp add: value_updated_sample_first)
  have r2: "snd (snd (value_updated ascii_rt ?st1 (sample 20) 5000)) = None"
    by (simp add: value_updated_sample_first value_updated_sample_next)
  have hyp: "value_name (sample 10) = Some (js ''Electric W Consumed'') \<and>
      value_name (sample 20) = Some (js ''Electric W Consumed'') \<and>
      coerce (newValue (sample 10)) (md_unit (sample 10)) = Inr (JNum (Fin 10), Some (js ''W'')) \<and>
      coerce (newValue (sample 20)) (md_unit (sample 20)) = Inr (JNum (Fin 20), Some (js ''W''))"
    using n [of 10] n [of 20] c [of 10] c [of 20] by (intro conjI)
  note total = derivation_total [where rt = ascii_rt and raw = "js ''Electric W Consumed''"
      and suffix = "[]" and ?e1.0 = "sample 10" and ?e2.0 = "sample 20"
      and ?v1.0 = "JNum (Fin 10)" and ?v2.0 = "JNum (Fin 20)" and u = "Some (js ''W'')"
      and ?st1.0 = init_state and ?st2.0 = ?st1
      and ?t1.0 = 0 and ?t2.0 = 5000 and w = "js ''W''"]
  note ex = total [THEN conjunct2, THEN conjunct1, THEN mp, OF hyp, THEN conjunct2,
      THEN conjunct2]
  from ex obtain s1 x1 q1 s2 x2 q2 where
    v1: "value_updated ascii_rt init_state (sample 10) 0 = (s1, x1, q1)"
    and v2: "value_updated ascii_rt ?st1 (sample 20) 5000 = (s2, x2, q2)"
    and g1: "q1 = None \<longrightarrow> map fst (gauge_sets x1)
        = [deriveName ascii_rt (js ''Electric W Consumed'') (normalize ascii_rt (Some (js ''W'')))]"
    and g2: "q2 = None \<longrightarrow> map fst (gauge_sets x2)
        = [deriveName ascii_rt (js ''Electric W Consumed'') (normalize ascii_rt (Some (js ''W'')))]"
    by (elim exE conjE)
  from v1 r1 have q1: "q1 = None" by simp
  from v2 r2 have q2: "q2 = None" by simp
  from g1 q1 have g1': "map fst (gauge_sets x1) = [js ''zwave_electric_w_consumed_watts'']"
    by (simp add: nm)
  from g2 q2 have g2': "map fst (gauge_sets x2) = [js ''zwave_electric_w_consumed_watts'']"
    by (simp add: nm)
  from v1 [unfolded q1] v2 [unfolded q2] g1' g2' have "\<exists>s1 x1 s2 x2.
      value_updated ascii_rt init_state (sample 10) 0 = (s1, x1, None) \<and>
      value_updated ascii_rt ?st1 (sample 20) 5000 = (s2, x2, None) \<and>
      map fst (gauge_sets x1) = [js ''zwave_electric_w_consumed_watts''] \<and>
      map fst (gauge_sets x2) = [js ''zwave_electric_w_consumed_watts'']"
    by (intro exI conjI)
  with n [of 10] n [of 20] c [of 10] c [of 20] w sfx show ?thesis
    by (intro conjI)
qed

subsection \<open>Routing to the integrator\<close>



end
